theory Spec2Isabelle
  imports Main "HOL-Library.Sublist"
begin

section \<open>The chat backend of demo/server/src/index.ts\<close>

text \<open>
  The model starts where a request reaches \<^verbatim>\<open>chatRouter\<close>: the middleware in
  front of it (cors, the rate limiter, body-parser, morgan) is library code and is taken to
  have passed the request on. Each request is handled in one step, requests one after the
  other. What the handlers get from outside (the Firebase verifier, the UUID generator,
  the clock, the OpenAI client) is a parameter of the step, and every call to the verifier
  and to OpenAI is recorded in a log that the step returns.
\<close>

subsection \<open>Data model\<close>

text \<open>
  A value of declared type \<^verbatim>\<open>string\<close> that the runtime does not check:
  \<^verbatim>\<open>req.body.text\<close> is \<^verbatim>\<open>undefined\<close> when the body has no such key, and the
  content of an OpenAI choice is \<^verbatim>\<open>string | null\<close>. Bodies whose text is a number,
  an array or an object are outside the model.
\<close>

datatype js_string = Str string | Null | Undefined

datatype Sender = User | Bot

text \<open>\<^verbatim>\<open>createdAt\<close> is a JavaScript Date: milliseconds since the epoch.\<close>

record Message =
  id :: string
  "text" :: js_string
  createdAt :: int
  userId :: string
  sender :: Sender

record Chat =
  id :: string
  messages :: "Message list"
  title :: string
  userId :: string

type_synonym IMessage = Message
type_synonym IChat = Chat

text \<open>\<^verbatim>\<open>req.user\<close>, set by \<^verbatim>\<open>authenticate\<close>.\<close>

record ReqUser =
  uid :: string

text \<open>The request and reply shapes of \<^verbatim>\<open>openai.chat.completions.create\<close>.\<close>

record ChatCompletionMessageParam =
  content :: js_string
  role :: string

record ChatCompletionMessage =
  content :: js_string

record Choice =
  message :: ChatCompletionMessage

record ChatCompletion =
  choices :: "Choice list"

text \<open>
  The outside world of one request: \<open>verifyIdToken\<close> gives the uid of a token or
  \<open>None\<close> when it throws; \<open>v4\<close> is the identifier the next call of \<^verbatim>\<open>v4()\<close>
  returns and \<open>new_Date\<close> the value of \<^verbatim>\<open>new Date()\<close> (a handler calls each at most
  once); \<open>completions_create\<close> maps the model name and the messages to the reply, or
  to \<open>None\<close> when the awaited call rejects.
\<close>

record Env =
  verifyIdToken :: "string \<Rightarrow> string option"
  v4 :: string
  new_Date :: int
  completions_create :: "string \<Rightarrow> ChatCompletionMessageParam list \<Rightarrow> ChatCompletion option"

datatype Call =
    Call_verifyIdToken string
  | Call_completions_create string "ChatCompletionMessageParam list"

text \<open>The five routes of \<^verbatim>\<open>chatRouter\<close>, in the order they are registered.\<close>

datatype Route =
    POST_chat
  | POST_chat_messages string
  | GET_chat_response string
  | GET_chat_id string
  | GET_chat

record Request =
  authorization :: "string option"
  route :: Route
  body_text :: js_string

datatype Body =
    Send string
  | Json_Chat IChat
  | Json_Message IMessage
  | Json_Chats "IChat list"

record Response =
  status :: nat
  body :: Body

subsection \<open>Chat and Message\<close>

definition Chat_empty :: "Env \<Rightarrow> string \<Rightarrow> Chat" where
  "Chat_empty env u = \<lparr>Chat.id = v4 env, messages = [], title = ''New Chat'', Chat.userId = u\<rparr>"

definition Message_now :: "Env \<Rightarrow> js_string \<Rightarrow> string \<Rightarrow> Sender \<Rightarrow> Message" where
  "Message_now env t u s =
     \<lparr>Message.id = v4 env, text = t, createdAt = new_Date env, Message.userId = u, sender = s\<rparr>"

definition Message_toJson :: "Message \<Rightarrow> IMessage" where
  "Message_toJson m =
     \<lparr>Message.id = Message.id m, text = Message.text m, createdAt = Message.createdAt m,
      Message.userId = Message.userId m, sender = Message.sender m\<rparr>"

definition Chat_toJson :: "Chat \<Rightarrow> IChat" where
  "Chat_toJson c =
     \<lparr>Chat.id = Chat.id c, messages = map Message_toJson (messages c), title = title c,
      Chat.userId = Chat.userId c\<rparr>"

subsection \<open>authenticate\<close>

text \<open>
  \<^verbatim>\<open>String.prototype.split\<close> with a string separator: the pieces between the
  occurrences of the separator, found from left to right without overlap. \<open>acc\<close> is the
  piece being read.
\<close>

fun splitFrom :: "string \<Rightarrow> string \<Rightarrow> string \<Rightarrow> string list" where
  "splitFrom sep acc [] = [acc]"
| "splitFrom sep acc (c # cs) =
     (if sep \<noteq> [] \<and> take (length sep) (c # cs) = sep
      then acc # splitFrom sep [] (drop (length sep) (c # cs))
      else splitFrom sep (acc @ [c]) cs)"

definition split :: "string \<Rightarrow> string \<Rightarrow> string list" where
  "split s sep = (if sep = [] then map (\<lambda>c. [c]) s else splitFrom sep [] s)"

text \<open>
  \<^verbatim>\<open>req.headers.authorization?.split('Bearer ')[1]\<close>: \<open>None\<close> stands for
  \<^verbatim>\<open>undefined\<close>, which the optional chain gives for an absent header and the index
  gives past the end of the array.
\<close>

definition extractToken :: "string option \<Rightarrow> string option" where
  "extractToken header =
     (case header of
        None \<Rightarrow> None
      | Some h \<Rightarrow> (let parts = split h ''Bearer '' in
                   if 1 < length parts then Some (parts ! 1) else None))"

definition Unauthorized :: Response where
  "Unauthorized = \<lparr>status = 401, body = Send ''Unauthorized''\<rparr>"

definition authenticate :: "Env \<Rightarrow> Request \<Rightarrow> (Response + ReqUser) \<times> Call list" where
  "authenticate env req =
     (case extractToken (authorization req) of
        None \<Rightarrow> (Inl Unauthorized, [])
      | Some token \<Rightarrow>
          (case verifyIdToken env token of
             None \<Rightarrow> (Inl Unauthorized, [Call_verifyIdToken token])
           | Some u \<Rightarrow> (Inr \<lparr>uid = u\<rparr>, [Call_verifyIdToken token])))"

subsection \<open>The store and the handlers\<close>

definition findChat :: "string \<Rightarrow> ReqUser \<Rightarrow> Chat list \<Rightarrow> Chat option" where
  "findChat chatId user chats =
     find (\<lambda>chat. Chat.id chat = chatId \<and> Chat.userId chat = uid user) chats"

text \<open>
  \<^verbatim>\<open>chat.messages.push(message)\<close> on the object \<^verbatim>\<open>findChat\<close> returned: the first
  chat of the store with this id and owner is changed in place.
\<close>

fun messages_push :: "string \<Rightarrow> ReqUser \<Rightarrow> Message \<Rightarrow> Chat list \<Rightarrow> Chat list" where
  "messages_push chatId user m [] = []"
| "messages_push chatId user m (chat # rest) =
     (if Chat.id chat = chatId \<and> Chat.userId chat = uid user
      then chat\<lparr>messages := messages chat @ [m]\<rparr> # rest
      else chat # messages_push chatId user m rest)"

definition NotFound :: Response where
  "NotFound = \<lparr>status = 404, body = Send ''Chat not found''\<rparr>"

definition errorHandler :: Response where
  "errorHandler = \<lparr>status = 500, body = Send ''Something broke!''\<rparr>"

definition post_chat :: "Env \<Rightarrow> ReqUser \<Rightarrow> Chat list \<Rightarrow> Response \<times> Chat list \<times> Call list" where
  "post_chat env user chats =
     (let createdChat = Chat_empty env (uid user)
      in (\<lparr>status = 200, body = Json_Chat (Chat_toJson createdChat)\<rparr>, chats @ [createdChat], []))"

definition post_chat_messages ::
  "Env \<Rightarrow> ReqUser \<Rightarrow> string \<Rightarrow> js_string \<Rightarrow> Chat list \<Rightarrow> Response \<times> Chat list \<times> Call list" where
  "post_chat_messages env user chatId t chats =
     (case findChat chatId user chats of
        None \<Rightarrow> (NotFound, chats, [])
      | Some chat \<Rightarrow>
          (let message = Message_now env t (uid user) User
           in (\<lparr>status = 200, body = Json_Message (Message_toJson message)\<rparr>,
               messages_push chatId user message chats, [])))"

definition mapMessages :: "IChat \<Rightarrow> ChatCompletionMessageParam list" where
  "mapMessages chat =
     map (\<lambda>message.
            \<lparr>ChatCompletionMessageParam.content = Message.text message,
             role = (if Message.sender message = User then ''user'' else ''assistant'')\<rparr>)
         (messages chat)"

text \<open>
  The handler of \<^verbatim>\<open>GET /:id/response/\<close>. Its \<^verbatim>\<open>try\<close> block hands whatever is
  thrown to \<^verbatim>\<open>errorHandler\<close>: the rejected call, and the TypeError of
  \<^verbatim>\<open>response.choices[0].message\<close> when there is no choice. The \<^verbatim>\<open>!\<close> after
  \<^verbatim>\<open>content\<close> is erased by the compiler and checks nothing.
\<close>

definition get_chat_response ::
  "Env \<Rightarrow> ReqUser \<Rightarrow> string \<Rightarrow> Chat list \<Rightarrow> Response \<times> Chat list \<times> Call list" where
  "get_chat_response env user chatId chats =
     (case findChat chatId user chats of
        None \<Rightarrow> (NotFound, chats, [])
      | Some chat \<Rightarrow>
          (let params = mapMessages chat;
               calls = [Call_completions_create ''gpt-3.5-turbo'' params]
           in case completions_create env ''gpt-3.5-turbo'' params of
                None \<Rightarrow> (errorHandler, chats, calls)
              | Some response \<Rightarrow>
                  (case choices response of
                     [] \<Rightarrow> (errorHandler, chats, calls)
                   | choice # _ \<Rightarrow>
                       (let message =
                              Message_now env (ChatCompletionMessage.content (message choice))
                                (uid user) Bot
                        in (\<lparr>status = 200, body = Json_Message (Message_toJson message)\<rparr>,
                            messages_push chatId user message chats, calls)))))"

definition get_chat_id ::
  "ReqUser \<Rightarrow> string \<Rightarrow> Chat list \<Rightarrow> Response \<times> Chat list \<times> Call list" where
  "get_chat_id user chatId chats =
     (case findChat chatId user chats of
        None \<Rightarrow> (NotFound, chats, [])
      | Some chat \<Rightarrow> (\<lparr>status = 200, body = Json_Chat (Chat_toJson chat)\<rparr>, chats, []))"

definition get_chat :: "ReqUser \<Rightarrow> Chat list \<Rightarrow> Response \<times> Chat list \<times> Call list" where
  "get_chat user chats =
     (let userChats = filter (\<lambda>chat. Chat.userId chat = uid user) chats
      in (\<lparr>status = 200, body = Json_Chats (map Chat_toJson userChats)\<rparr>, chats, []))"

definition dispatch :: "Env \<Rightarrow> ReqUser \<Rightarrow> Request \<Rightarrow> Chat list \<Rightarrow> Response \<times> Chat list \<times> Call list" where
  "dispatch env user req chats =
     (case route req of
        POST_chat \<Rightarrow> post_chat env user chats
      | POST_chat_messages chatId \<Rightarrow> post_chat_messages env user chatId (body_text req) chats
      | GET_chat_response chatId \<Rightarrow> get_chat_response env user chatId chats
      | GET_chat_id chatId \<Rightarrow> get_chat_id user chatId chats
      | GET_chat \<Rightarrow> get_chat user chats)"

text \<open>
  One request: \<^verbatim>\<open>authenticate\<close> first, and the route's handler only after
  \<^verbatim>\<open>next()\<close>. The result is the response, the store afterwards and the outside calls
  made, in order.
\<close>

definition handle :: "Env \<Rightarrow> Request \<Rightarrow> Chat list \<Rightarrow> Response \<times> Chat list \<times> Call list" where
  "handle env req chats =
     (case authenticate env req of
        (Inl res, calls) \<Rightarrow> (res, chats, calls)
      | (Inr user, calls) \<Rightarrow>
          (case dispatch env user req chats of
             (res, chats', calls') \<Rightarrow> (res, chats', calls @ calls')))"

text \<open>A run of the server: the store after a sequence of requests, from a given store.\<close>

fun run :: "(Env \<times> Request) list \<Rightarrow> Chat list \<Rightarrow> Chat list" where
  "run [] chats = chats"
| "run ((env, req) # rest) chats = run rest (fst (snd (handle env req chats)))"

subsection \<open>The wire format\<close>

datatype json =
    JNull
  | JBool bool
  | JNumber int
  | JString string
  | JArray "json list"
  | JObject "(string \<times> json) list"

text \<open>The string values of the \<^verbatim>\<open>Sender\<close> enum.\<close>

fun Sender_value :: "Sender \<Rightarrow> string" where
  "Sender_value User = ''user''"
| "Sender_value Bot = ''bot''"

text \<open>
  \<^verbatim>\<open>res.json(x)\<close> sends \<^verbatim>\<open>JSON.stringify(x)\<close>: the keys in the order of the object
  literal, a key whose value is \<^verbatim>\<open>undefined\<close> left out, and a Date written by its
  \<^verbatim>\<open>toISOString\<close>, which is the JavaScript runtime's and a parameter here.
\<close>

fun stringify_text :: "js_string \<Rightarrow> (string \<times> json) list" where
  "stringify_text (Str s) = [(''text'', JString s)]"
| "stringify_text Null = [(''text'', JNull)]"
| "stringify_text Undefined = []"

definition stringify_IMessage :: "(int \<Rightarrow> string) \<Rightarrow> IMessage \<Rightarrow> json" where
  "stringify_IMessage toISOString m =
     JObject ([(''id'', JString (Message.id m))] @ stringify_text (Message.text m) @
              [(''createdAt'', JString (toISOString (Message.createdAt m))),
               (''userId'', JString (Message.userId m)),
               (''sender'', JString (Sender_value (Message.sender m)))])"

definition stringify_IChat :: "(int \<Rightarrow> string) \<Rightarrow> IChat \<Rightarrow> json" where
  "stringify_IChat toISOString c =
     JObject [(''id'', JString (Chat.id c)),
              (''messages'', JArray (map (stringify_IMessage toISOString) (messages c))),
              (''title'', JString (title c)),
              (''userId'', JString (Chat.userId c))]"

section \<open>The client's model classes\<close>

text \<open>
  The Dart classes \<^verbatim>\<open>Chat\<close>, \<^verbatim>\<open>ChatMessage\<close> and \<^verbatim>\<open>Sender\<close> with their
  \<^verbatim>\<open>fromJson\<close> factories. The Dart \<^verbatim>\<open>Chat\<close> and \<^verbatim>\<open>Sender\<close> carry the prefix
  \<open>Dart_\<close> here, the server's classes having the names already. A \<^verbatim>\<open>DateTime\<close> is the
  instant it denotes, in milliseconds since the epoch; \<^verbatim>\<open>DateTime.parse\<close> is the Dart
  SDK's and a parameter, \<open>None\<close> when it throws.
\<close>

datatype Dart_Sender = Sender_user | Sender_bot

record ChatMessage =
  id :: string
  "text" :: string
  createdAt :: int
  sender :: Dart_Sender

record Dart_Chat =
  id :: string
  title :: string
  messages :: "ChatMessage list"

datatype Dart_Error =
    TypeError
  | NoSuchMethodError
  | FormatException
  | Exception string

text \<open>\<^verbatim>\<open>json[key]\<close> on a \<^verbatim>\<open>Map<String, dynamic>\<close>: null for an absent key.\<close>

definition lookup :: "(string \<times> json) list \<Rightarrow> string \<Rightarrow> json" where
  "lookup kvs k = (case map_of kvs k of None \<Rightarrow> JNull | Some v \<Rightarrow> v)"

text \<open>The implicit cast of a \<^verbatim>\<open>dynamic\<close> value to \<^verbatim>\<open>String\<close>.\<close>

fun as_String :: "json \<Rightarrow> Dart_Error + string" where
  "as_String (JString s) = Inr s"
| "as_String _ = Inl TypeError"

definition Sender_fromJson :: "string \<Rightarrow> Dart_Error + Dart_Sender" where
  "Sender_fromJson s =
     (if s = ''user'' then Inr Sender_user
      else if s = ''bot'' then Inr Sender_bot
      else Inl (Exception ''Invalid sender''))"

definition ChatMessage_fromJson ::
  "(string \<Rightarrow> int option) \<Rightarrow> (string \<times> json) list \<Rightarrow> Dart_Error + ChatMessage" where
  "ChatMessage_fromJson DateTime_parse kvs =
     (case as_String (lookup kvs ''id'') of
        Inl e \<Rightarrow> Inl e
      | Inr i \<Rightarrow>
     (case as_String (lookup kvs ''text'') of
        Inl e \<Rightarrow> Inl e
      | Inr t \<Rightarrow>
     (case as_String (lookup kvs ''createdAt'') of
        Inl e \<Rightarrow> Inl e
      | Inr d \<Rightarrow>
     (case DateTime_parse d of
        None \<Rightarrow> Inl FormatException
      | Some c \<Rightarrow>
     (case as_String (lookup kvs ''sender'') of
        Inl e \<Rightarrow> Inl e
      | Inr s \<Rightarrow>
     (case Sender_fromJson s of
        Inl e \<Rightarrow> Inl e
      | Inr sd \<Rightarrow>
          Inr \<lparr>ChatMessage.id = i, ChatMessage.text = t, ChatMessage.createdAt = c,
               ChatMessage.sender = sd\<rparr>))))))"

text \<open>
  \<^verbatim>\<open>.map<ChatMessage>((e) => ChatMessage.fromJson(Map<String, dynamic>.from(e))).toList()\<close>:
  the elements from first to last, stopping at the first that throws.
\<close>

fun messages_fromJson ::
  "(string \<Rightarrow> int option) \<Rightarrow> json list \<Rightarrow> Dart_Error + ChatMessage list" where
  "messages_fromJson DateTime_parse [] = Inr []"
| "messages_fromJson DateTime_parse (JObject kvs # es) =
     (case ChatMessage_fromJson DateTime_parse kvs of
        Inl e \<Rightarrow> Inl e
      | Inr m \<Rightarrow>
          (case messages_fromJson DateTime_parse es of
             Inl e \<Rightarrow> Inl e
           | Inr ms \<Rightarrow> Inr (m # ms)))"
| "messages_fromJson DateTime_parse (_ # es) = Inl TypeError"

definition Chat_fromJson ::
  "(string \<Rightarrow> int option) \<Rightarrow> (string \<times> json) list \<Rightarrow> Dart_Error + Dart_Chat" where
  "Chat_fromJson DateTime_parse kvs =
     (case as_String (lookup kvs ''id'') of
        Inl e \<Rightarrow> Inl e
      | Inr i \<Rightarrow>
     (case as_String (lookup kvs ''title'') of
        Inl e \<Rightarrow> Inl e
      | Inr t \<Rightarrow>
     (case lookup kvs ''messages'' of
        JArray es \<Rightarrow>
          (case messages_fromJson DateTime_parse es of
             Inl e \<Rightarrow> Inl e
           | Inr ms \<Rightarrow> Inr \<lparr>Dart_Chat.id = i, Dart_Chat.title = t, Dart_Chat.messages = ms\<rparr>)
      | _ \<Rightarrow> Inl NoSuchMethodError)))"

text \<open>What the client does with a response body: a JSON object is decoded, anything else is
  not a \<^verbatim>\<open>Map<String, dynamic>\<close>.\<close>

fun Chat_fromResponse :: "(string \<Rightarrow> int option) \<Rightarrow> json \<Rightarrow> Dart_Error + Dart_Chat" where
  "Chat_fromResponse DateTime_parse (JObject kvs) = Chat_fromJson DateTime_parse kvs"
| "Chat_fromResponse DateTime_parse _ = Inl TypeError"

section \<open>Notions of the specification\<close>

text \<open>
  The portion of a string after the first occurrence of a separator (\<open>None\<close> when the
  separator does not occur), and the portion before it (the whole string when it does not
  occur).
\<close>

fun portion_after_first :: "string \<Rightarrow> string \<Rightarrow> string option" where
  "portion_after_first sep [] = (if sep = [] then Some [] else None)"
| "portion_after_first sep (c # cs) =
     (if take (length sep) (c # cs) = sep then Some (drop (length sep) (c # cs))
      else portion_after_first sep cs)"

fun portion_before_first :: "string \<Rightarrow> string \<Rightarrow> string" where
  "portion_before_first sep [] = []"
| "portion_before_first sep (c # cs) =
     (if take (length sep) (c # cs) = sep then [] else c # portion_before_first sep cs)"

text \<open>
  What a request may do to a chat of the store: the identifier, the owner and the title
  stay, and the messages it had stay in front.
\<close>

definition keeps :: "Chat \<Rightarrow> Chat \<Rightarrow> bool" where
  "keeps c c' \<longleftrightarrow>
     Chat.id c' = Chat.id c \<and> Chat.userId c' = Chat.userId c \<and> Chat.title c' = Chat.title c \<and>
     prefix (Chat.messages c) (Chat.messages c')"

text \<open>A \<open>create(u)\<close> call of a run: a \<^verbatim>\<open>POST /chat/\<close> that authenticates as \<open>u\<close>.\<close>

definition creates :: "string \<Rightarrow> Env \<times> Request \<Rightarrow> bool" where
  "creates u e \<longleftrightarrow>
     route (snd e) = POST_chat \<and> fst (authenticate (fst e) (snd e)) = Inr \<lparr>uid = u\<rparr>"

text \<open>
  The contract of the UUID generator over a run: the identifier it has ready for a request
  is not the id of a chat in the store.
\<close>

fun fresh_ids :: "(Env \<times> Request) list \<Rightarrow> Chat list \<Rightarrow> bool" where
  "fresh_ids [] chats \<longleftrightarrow> True"
| "fresh_ids ((env, req) # rest) chats \<longleftrightarrow>
     v4 env \<notin> Chat.id ` set chats \<and> fresh_ids rest (fst (snd (handle env req chats)))"

section \<open>Example data\<close>

text \<open>
  An outside world that knows the tokens of two users and in which OpenAI replies
  \<^verbatim>\<open>hello\<close>; one in which the reply's only choice has no content; two chats, of
  \<open>alice\<close> and of \<open>bob\<close>, and the first with \<open>bob\<close> in place of \<open>alice\<close>; a
  request that carries a token the way the client sends it; the message a reply makes in
  these worlds; and a run of four requests.
\<close>

definition env0 :: Env where
  "env0 =
     \<lparr>verifyIdToken = (\<lambda>t. if t = ''tok-alice'' then Some ''alice''
                            else if t = ''tok-bob'' then Some ''bob'' else None),
      v4 = ''id-9'', new_Date = 1700000000000,
      completions_create = (\<lambda>model ps.
        Some \<lparr>choices = [\<lparr>message = \<lparr>ChatCompletionMessage.content = Str ''hello''\<rparr>\<rparr>]\<rparr>)\<rparr>"

definition chat_a :: Chat where
  "chat_a =
     \<lparr>Chat.id = ''c-1'',
      Chat.messages =
        [\<lparr>Message.id = ''m-1'', Message.text = Str ''hi'', Message.createdAt = 1700000000000,
          Message.userId = ''alice'', Message.sender = User\<rparr>],
      Chat.title = ''New Chat'', Chat.userId = ''alice''\<rparr>"

definition chat_b :: Chat where
  "chat_b =
     \<lparr>Chat.id = ''c-2'', Chat.messages = [], Chat.title = ''New Chat'', Chat.userId = ''bob''\<rparr>"

definition chat_a' :: Chat where
  "chat_a' =
     \<lparr>Chat.id = ''c-1'',
      Chat.messages =
        [\<lparr>Message.id = ''m-1'', Message.text = Str ''hi'', Message.createdAt = 1700000000000,
          Message.userId = ''bob'', Message.sender = User\<rparr>],
      Chat.title = ''New Chat'', Chat.userId = ''bob''\<rparr>"

definition request :: "string \<Rightarrow> Route \<Rightarrow> js_string \<Rightarrow> Request" where
  "request token r t = \<lparr>authorization = Some (''Bearer '' @ token), route = r, body_text = t\<rparr>"

definition env_null :: Env where
  "env_null =
     env0\<lparr>completions_create := (\<lambda>model ps.
        Some \<lparr>choices = [\<lparr>message = \<lparr>ChatCompletionMessage.content = Null\<rparr>\<rparr>]\<rparr>)\<rparr>"

definition bot_reply :: "js_string \<Rightarrow> Message" where
  "bot_reply t =
     \<lparr>Message.id = ''id-9'', Message.text = t, Message.createdAt = 1700000000000,
      Message.userId = ''alice'', Message.sender = Bot\<rparr>"

definition events0 :: "(Env \<times> Request) list" where
  "events0 =
     [(env0, request ''tok-alice'' POST_chat Undefined),
      (env0\<lparr>v4 := ''id-10''\<rparr>, request ''tok-bob'' POST_chat Undefined),
      (env0\<lparr>v4 := ''id-11''\<rparr>, request ''tok-alice'' (POST_chat_messages ''id-9'') (Str ''yo'')),
      (env0\<lparr>v4 := ''id-12''\<rparr>, request ''tok-alice'' POST_chat Undefined)]"

text \<open>
  A \<^verbatim>\<open>toISOString\<close> and a \<^verbatim>\<open>DateTime.parse\<close> for the examples: the two instants
  the examples use, as the runtimes write and read them.
\<close>

definition toISOString0 :: "int \<Rightarrow> string" where
  "toISOString0 d =
     (if d = 1700000000000 then ''2023-11-14T22:13:20.000Z'' else ''1970-01-01T00:00:00.000Z'')"

definition DateTime_parse0 :: "string \<Rightarrow> int option" where
  "DateTime_parse0 s =
     (if s = ''2023-11-14T22:13:20.000Z'' then Some 1700000000000
      else if s = ''1970-01-01T00:00:00.000Z'' then Some 0 else None)"

section \<open>Properties\<close>

subsection \<open>Token extraction and authentication\<close>

lemma portion_after_first_None_iff:
  "sep \<noteq> [] \<Longrightarrow> portion_after_first sep s = None \<longleftrightarrow> (\<nexists>pre post. s = pre @ sep @ post)"
proof (induction s)
  case Nil
  then show ?case by simp
next
  case (Cons c cs)
  show ?case
  proof (cases "take (length sep) (c # cs) = sep")
    case True
    then have "c # cs = [] @ sep @ drop (length sep) (c # cs)"
      by (metis append_Nil append_take_drop_id)
    then have "\<exists>pre post. c # cs = pre @ sep @ post" by blast
    with True show ?thesis by simp
  next
    case False
    have "(\<exists>pre post. c # cs = pre @ sep @ post) \<longleftrightarrow> (\<exists>pre post. cs = pre @ sep @ post)"
    proof
      assume "\<exists>pre post. c # cs = pre @ sep @ post"
      then obtain pre post where e: "c # cs = pre @ sep @ post" by blast
      show "\<exists>pre post. cs = pre @ sep @ post"
      proof (cases pre)
        case Nil
        with e have "take (length sep) (c # cs) = sep" by simp
        with False show ?thesis by simp
      next
        case (Cons p ps)
        with e have "cs = ps @ sep @ post" by simp
        then show ?thesis by blast
      qed
    next
      assume "\<exists>pre post. cs = pre @ sep @ post"
      then obtain pre post where "cs = pre @ sep @ post" by blast
      then have "c # cs = (c # pre) @ sep @ post" by simp
      then show "\<exists>pre post. c # cs = pre @ sep @ post" by blast
    qed
    with False Cons show ?thesis by simp
  qed
qed

lemma splitFrom_unfold:
  "sep \<noteq> [] \<Longrightarrow>
   splitFrom sep acc s =
     (case portion_after_first sep s of
        None \<Rightarrow> [acc @ s]
      | Some rest \<Rightarrow> (acc @ portion_before_first sep s) # splitFrom sep [] rest)"
proof (induction s arbitrary: acc)
  case Nil
  then show ?case by simp
next
  case (Cons c cs)
  show ?case
  proof (cases "take (length sep) (c # cs) = sep")
    case True
    with Cons.prems show ?thesis by simp
  next
    case False
    have "splitFrom sep acc (c # cs) = splitFrom sep (acc @ [c]) cs"
      using False by simp
    also have "\<dots> =
        (case portion_after_first sep cs of
           None \<Rightarrow> [(acc @ [c]) @ cs]
         | Some rest \<Rightarrow> ((acc @ [c]) @ portion_before_first sep cs) # splitFrom sep [] rest)"
      using Cons.prems by (rule Cons.IH)
    finally show ?thesis
      using False by (simp split: option.splits)
  qed
qed

lemma splitFrom_hd: "sep \<noteq> [] \<Longrightarrow> hd (splitFrom sep acc s) = acc @ portion_before_first sep s"
  by (induction s arbitrary: acc) auto

lemma splitFrom_not_Nil: "splitFrom sep acc s \<noteq> []"
  by (induction s arbitrary: acc) auto

lemma extractToken_Some:
  "extractToken (Some h) =
     (case portion_after_first ''Bearer '' h of
        None \<Rightarrow> None
      | Some rest \<Rightarrow> Some (portion_before_first ''Bearer '' rest))"
proof (cases "portion_after_first ''Bearer '' h")
  case None
  then show ?thesis
    by (simp add: extractToken_def split_def splitFrom_unfold [of "''Bearer ''" "[]" h])
next
  case (Some rest)
  have ne: "splitFrom ''Bearer '' [] rest \<noteq> []" by (rule splitFrom_not_Nil)
  then have len: "0 < length (splitFrom ''Bearer '' [] rest)" by simp
  have "splitFrom ''Bearer '' [] rest ! 0 = hd (splitFrom ''Bearer '' [] rest)"
    using ne by (simp add: hd_conv_nth)
  then have "splitFrom ''Bearer '' [] rest ! 0 = portion_before_first ''Bearer '' rest"
    by (simp add: splitFrom_hd)
  with Some len show ?thesis
    by (simp add: extractToken_def split_def splitFrom_unfold [of "''Bearer ''" "[]" h])
qed

lemma handle_Inl:
  "authenticate env req = (Inl r, calls) \<Longrightarrow> handle env req chats = (r, chats, calls)"
  by (simp add: handle_def)

lemma handle_Inr:
  "authenticate env req = (Inr user, calls) \<Longrightarrow>
   handle env req chats =
     (case dispatch env user req chats of (res, chats', calls') \<Rightarrow> (res, chats', calls @ calls'))"
  by (simp add: handle_def)

lemma extractToken_no_Bearer:
  "\<nexists>pre post. h = pre @ ''Bearer '' @ post \<Longrightarrow> extractToken (Some h) = None"
  using portion_after_first_None_iff [of "''Bearer ''" h] by (simp add: extractToken_Some)

lemma authenticate_no_token:
  "extractToken (authorization req) = None \<Longrightarrow> authenticate env req = (Inl Unauthorized, [])"
  by (simp add: authenticate_def)

lemma authenticate_rejected:
  "extractToken (authorization req) = Some token \<Longrightarrow> verifyIdToken env token = None \<Longrightarrow>
   authenticate env req = (Inl Unauthorized, [Call_verifyIdToken token])"
  by (simp add: authenticate_def)

text \<open>
  C10 (as amended). The token is the second piece of the header split at \<^verbatim>\<open>'Bearer '\<close>:
  the portion after the first occurrence of \<^verbatim>\<open>'Bearer '\<close>, up to the next occurrence
  when there is one. When the header is absent or does not contain \<^verbatim>\<open>'Bearer '\<close>
  there is no token, and the request is answered 401 with the store unchanged and without
  any call to the verifier.
\<close>

theorem extractToken_Bearer:
  "extractToken None = None \<and>
   extractToken (Some h) =
     (case portion_after_first ''Bearer '' h of
        None \<Rightarrow> None
      | Some rest \<Rightarrow> Some (portion_before_first ''Bearer '' rest)) \<and>
   (authorization req = None \<or>
    (\<exists>h'. authorization req = Some h' \<and> (\<nexists>pre post. h' = pre @ ''Bearer '' @ post)) \<longrightarrow>
      extractToken (authorization req) = None \<and>
      handle env req chats = (Unauthorized, chats, []))"
proof -
  have a: "extractToken None = None" by (simp add: extractToken_def)
  have c: "extractToken (authorization req) = None \<and>
           handle env req chats = (Unauthorized, chats, [])"
    if "authorization req = None \<or>
        (\<exists>h'. authorization req = Some h' \<and> (\<nexists>pre post. h' = pre @ ''Bearer '' @ post))"
  proof -
    from that have "extractToken (authorization req) = None"
      using a extractToken_no_Bearer by auto
    then show ?thesis
      by (simp add: authenticate_no_token handle_Inl)
  qed
  from a c show ?thesis
    using extractToken_Some [of h] by blast
qed

theorem extractToken_Bearer_witness:
  "extractToken (Some ''Bearer tok-alice'') = Some ''tok-alice'' \<and>
   handle env0 \<lparr>authorization = Some ''Basic tok-alice'', route = GET_chat, body_text = Undefined\<rparr> []
     = (Unauthorized, [], [])"
proof -
  have nb: "\<nexists>pre post. ''Basic tok-alice'' = pre @ ''Bearer '' @ post"
    using portion_after_first_None_iff [of "''Bearer ''" "''Basic tok-alice''"] by simp
  show ?thesis
    using nb extractToken_Bearer [of "''Bearer tok-alice''"
        "\<lparr>authorization = Some ''Basic tok-alice'', route = GET_chat, body_text = Undefined\<rparr>"
        env0 "[]"]
    by simp
qed

text \<open>
  C10 as stated fails where \<^verbatim>\<open>'Bearer '\<close> occurs twice: the token stops at the second
  occurrence, it is not the whole portion after the first.
\<close>

theorem extractToken_second_Bearer:
  "extractToken (Some ''Bearer a Bearer b'') = Some ''a '' \<and>
   portion_after_first ''Bearer '' ''Bearer a Bearer b'' = Some ''a Bearer b'' \<and>
   extractToken (Some ''Bearer a Bearer b'') \<noteq> portion_after_first ''Bearer '' ''Bearer a Bearer b''"
  by (simp add: extractToken_def split_def)

text \<open>
  C7. A request on any route whose credential is missing, holds no \<^verbatim>\<open>'Bearer '\<close>, or
  is rejected by the verifier is answered 401 \<^verbatim>\<open>Unauthorized\<close> by
  \<^verbatim>\<open>authenticate\<close>; the store is unchanged and nothing but the verifier (if there was
  a token to show it) has been called: no handler has run.
\<close>

theorem unauthenticated_rejected:
  assumes "authorization req = None \<or>
           (\<exists>h. authorization req = Some h \<and> (\<nexists>pre post. h = pre @ ''Bearer '' @ post)) \<or>
           (\<exists>token. extractToken (authorization req) = Some token \<and> verifyIdToken env token = None)"
  shows "handle env req chats =
           (Unauthorized, chats,
            case extractToken (authorization req) of
              None \<Rightarrow> []
            | Some token \<Rightarrow> [Call_verifyIdToken token])"
proof -
  consider (none) "extractToken (authorization req) = None"
    | (rejected) token where "extractToken (authorization req) = Some token"
        "verifyIdToken env token = None"
    using assms extractToken_no_Bearer by (auto simp: extractToken_def)
  then show ?thesis
  proof cases
    case none
    then show ?thesis by (simp add: authenticate_no_token handle_Inl)
  next
    case rejected
    then show ?thesis by (simp add: authenticate_rejected handle_Inl)
  qed
qed

theorem unauthenticated_rejected_witness:
  "verifyIdToken env0 ''tok-eve'' = None \<and>
   handle env0
     \<lparr>authorization = Some ''Bearer tok-eve'', route = POST_chat, body_text = Undefined\<rparr> []
     = (Unauthorized, [], [Call_verifyIdToken ''tok-eve''])"
proof -
  have t: "extractToken (Some ''Bearer tok-eve'') = Some ''tok-eve''"
    by (simp add: extractToken_def split_def)
  have v: "verifyIdToken env0 ''tok-eve'' = None"
    by (simp add: env0_def)
  show ?thesis
    using t v unauthenticated_rejected [of
        "\<lparr>authorization = Some ''Bearer tok-eve'', route = POST_chat, body_text = Undefined\<rparr>"
        env0 "[]"]
    by simp
qed

subsection \<open>The store\<close>

lemma Message_toJson_id [simp]: "Message_toJson m = m"
  by (simp add: Message_toJson_def)

lemma map_Message_toJson [simp]: "map Message_toJson ms = ms"
  by (induction ms) simp_all

lemma Chat_toJson_id [simp]: "Chat_toJson c = c"
  by (simp add: Chat_toJson_def)

lemma find_distinct_id:
  "distinct (map Chat.id chats) \<Longrightarrow> chat \<in> set chats \<Longrightarrow>
   find (\<lambda>c. Chat.id c = Chat.id chat \<and> P c) chats = (if P chat then Some chat else None)"
  by (induction chats) (auto simp: image_iff find_None_iff)

lemma find_unknown_id:
  "i \<notin> Chat.id ` set chats \<Longrightarrow> find (\<lambda>c. Chat.id c = i \<and> P c) chats = None"
  by (auto simp: find_None_iff)

text \<open>
  C1. In a store whose chat ids are pairwise distinct, looking up a stored chat by its id
  gives that chat to its owner and nothing to any other user; \<^verbatim>\<open>GET /chat/:id/\<close>
  answers the owner with the chat and any other user with the 404 it also gives for an id
  that no chat has.
\<close>

theorem findChat_owner_only:
  assumes "distinct (map Chat.id chats)" and "chat \<in> set chats"
  shows "findChat (Chat.id chat) user chats =
           (if uid user = Chat.userId chat then Some chat else None) \<and>
         (\<forall>env req calls.
            route req = GET_chat_id (Chat.id chat) \<longrightarrow>
            authenticate env req = (Inr user, calls) \<longrightarrow>
            handle env req chats =
              (if uid user = Chat.userId chat
               then \<lparr>status = 200, body = Json_Chat (Chat_toJson chat)\<rparr>
               else NotFound, chats, calls)) \<and>
         (\<forall>unknown.
            unknown \<notin> Chat.id ` set chats \<longrightarrow> uid user \<noteq> Chat.userId chat \<longrightarrow>
            get_chat_id user (Chat.id chat) chats = get_chat_id user unknown chats)"
proof -
  have f: "findChat (Chat.id chat) user chats =
             (if uid user = Chat.userId chat then Some chat else None)"
    unfolding findChat_def
    using find_distinct_id [OF assms, of "\<lambda>c. Chat.userId c = uid user"] by auto
  have u: "findChat unknown user chats = None" if "unknown \<notin> Chat.id ` set chats" for unknown
    unfolding findChat_def using that by (rule find_unknown_id)
  show ?thesis
    using f u by (auto simp: handle_Inr dispatch_def get_chat_id_def)
qed

theorem findChat_owner_only_witness:
  "findChat ''c-1'' \<lparr>uid = ''alice''\<rparr> [chat_a, chat_b] = Some chat_a \<and>
   findChat ''c-1'' \<lparr>uid = ''bob''\<rparr> [chat_a, chat_b] = None \<and>
   handle env0 (request ''tok-bob'' (GET_chat_id ''c-1'') Undefined) [chat_a, chat_b] =
     (NotFound, [chat_a, chat_b], [Call_verifyIdToken ''tok-bob'']) \<and>
   get_chat_id \<lparr>uid = ''bob''\<rparr> ''c-1'' [chat_a, chat_b] =
     get_chat_id \<lparr>uid = ''bob''\<rparr> ''c-7'' [chat_a, chat_b]"
proof -
  have d: "distinct (map Chat.id [chat_a, chat_b])"
    by (simp add: chat_a_def chat_b_def)
  have m: "chat_a \<in> set [chat_a, chat_b]"
    by simp
  have a: "authenticate env0 (request ''tok-bob'' (GET_chat_id ''c-1'') Undefined) =
             (Inr \<lparr>uid = ''bob''\<rparr>, [Call_verifyIdToken ''tok-bob''])"
    by (simp add: authenticate_def request_def extractToken_def split_def env0_def)
  have i: "Chat.id chat_a = ''c-1''" "Chat.userId chat_a = ''alice''"
    by (simp_all add: chat_a_def)
  have n: "''c-7'' \<notin> Chat.id ` set [chat_a, chat_b]"
    by (simp add: chat_a_def chat_b_def)
  have r: "route (request ''tok-bob'' (GET_chat_id ''c-1'') Undefined) = GET_chat_id ''c-1''"
    by (simp add: request_def)
  show ?thesis
    using findChat_owner_only [OF d m, of "\<lparr>uid = ''alice''\<rparr>"]
      findChat_owner_only [OF d m, of "\<lparr>uid = ''bob''\<rparr>"] a i n r
    by simp
qed

text \<open>
  C6. \<^verbatim>\<open>POST /chat/\<close> by an authenticated user never fails: it answers 200 with a chat
  that has no messages, the title \<^verbatim>\<open>New Chat\<close>, the caller as owner and the
  identifier drawn from the UUID generator, and appends that chat to the store. When the
  generator's identifier is not in use, the ids of the store stay pairwise distinct.
\<close>

theorem post_chat_creates:
  assumes "route req = POST_chat" and "authenticate env req = (Inr user, calls)"
  shows "handle env req chats =
           (\<lparr>status = 200,
             body = Json_Chat \<lparr>Chat.id = v4 env, Chat.messages = [], Chat.title = ''New Chat'',
                               Chat.userId = uid user\<rparr>\<rparr>,
            chats @ [\<lparr>Chat.id = v4 env, Chat.messages = [], Chat.title = ''New Chat'',
                      Chat.userId = uid user\<rparr>],
            calls) \<and>
         (v4 env \<notin> Chat.id ` set chats \<longrightarrow> distinct (map Chat.id chats) \<longrightarrow>
            distinct (map Chat.id (fst (snd (handle env req chats)))))"
  using assms by (simp add: handle_Inr dispatch_def post_chat_def Chat_empty_def Let_def)

theorem post_chat_creates_witness:
  "handle env0 (request ''tok-alice'' POST_chat Undefined) [chat_a, chat_b] =
     (\<lparr>status = 200,
       body = Json_Chat \<lparr>Chat.id = ''id-9'', Chat.messages = [], Chat.title = ''New Chat'',
                         Chat.userId = ''alice''\<rparr>\<rparr>,
      [chat_a, chat_b,
       \<lparr>Chat.id = ''id-9'', Chat.messages = [], Chat.title = ''New Chat'',
        Chat.userId = ''alice''\<rparr>],
      [Call_verifyIdToken ''tok-alice'']) \<and>
   distinct (map Chat.id
     (fst (snd (handle env0 (request ''tok-alice'' POST_chat Undefined) [chat_a, chat_b]))))"
proof -
  have a: "authenticate env0 (request ''tok-alice'' POST_chat Undefined) =
             (Inr \<lparr>uid = ''alice''\<rparr>, [Call_verifyIdToken ''tok-alice''])"
    by (simp add: authenticate_def request_def extractToken_def split_def env0_def)
  have r: "route (request ''tok-alice'' POST_chat Undefined) = POST_chat"
    by (simp add: request_def)
  have f: "v4 env0 \<notin> Chat.id ` set [chat_a, chat_b]" "distinct (map Chat.id [chat_a, chat_b])"
    by (simp_all add: env0_def chat_a_def chat_b_def)
  have v: "v4 env0 = ''id-9''"
    by (simp add: env0_def)
  show ?thesis
    using post_chat_creates [OF r a, of "[chat_a, chat_b]"] f v by auto
qed

text \<open>
  Under the generator's contract the ids of the store are pairwise distinct throughout a
  run, which is what the lookup by id and owner relies on.
\<close>

lemma messages_push_ids: "map Chat.id (messages_push chatId user m chats) = map Chat.id chats"
  by (induction chats) simp_all

lemma handle_ids:
  "map Chat.id (fst (snd (handle env req chats))) = map Chat.id chats \<or>
   map Chat.id (fst (snd (handle env req chats))) = map Chat.id chats @ [v4 env]"
proof (cases "authenticate env req")
  case (Pair a calls)
  show ?thesis
  proof (cases a)
    case (Inl r)
    with Pair show ?thesis by (simp add: handle_Inl)
  next
    case (Inr user)
    with Pair have "fst (snd (handle env req chats)) = fst (snd (dispatch env user req chats))"
      by (simp add: handle_Inr split: prod.splits)
    then show ?thesis
      by (cases "route req")
        (auto simp: dispatch_def post_chat_def post_chat_messages_def get_chat_response_def
           get_chat_id_def get_chat_def Let_def Chat_empty_def messages_push_ids
           split: option.splits list.splits)
  qed
qed

lemma run_distinct_ids:
  "distinct (map Chat.id chats) \<Longrightarrow> fresh_ids events chats \<Longrightarrow>
   distinct (map Chat.id (run events chats))"
proof (induction events arbitrary: chats)
  case Nil
  then show ?case by simp
next
  case (Cons e events)
  obtain env req where e: "e = (env, req)" by (cases e)
  from Cons.prems e have f: "v4 env \<notin> Chat.id ` set chats"
    and r: "fresh_ids events (fst (snd (handle env req chats)))"
    by simp_all
  have "distinct (map Chat.id (fst (snd (handle env req chats))))"
    using handle_ids [of env req chats] Cons.prems(1) f by auto
  from Cons.IH [OF this r] e show ?case by simp
qed

lemma messages_push_found:
  "findChat chatId user chats = Some chat \<Longrightarrow>
   \<exists>pre post. chats = pre @ chat # post \<and>
     messages_push chatId user m chats =
       pre @ chat\<lparr>Chat.messages := Chat.messages chat @ [m]\<rparr> # post"
proof (induction chats)
  case Nil
  then show ?case by (simp add: findChat_def)
next
  case (Cons c cs)
  show ?case
  proof (cases "Chat.id c = chatId \<and> Chat.userId c = uid user")
    case True
    with Cons.prems have "c = chat" by (simp add: findChat_def)
    with True have "c # cs = [] @ chat # cs \<and>
        messages_push chatId user m (c # cs) =
          [] @ chat\<lparr>Chat.messages := Chat.messages chat @ [m]\<rparr> # cs"
      by simp
    then show ?thesis by blast
  next
    case False
    with Cons.prems have "findChat chatId user cs = Some chat" by (simp add: findChat_def)
    then obtain pre post where p1: "cs = pre @ chat # post"
      and p2: "messages_push chatId user m cs =
         pre @ chat\<lparr>Chat.messages := Chat.messages chat @ [m]\<rparr> # post"
      using Cons.IH by blast
    from False have mp: "messages_push chatId user m (c # cs) = c # messages_push chatId user m cs"
      by auto
    from p1 have q1: "c # cs = (c # pre) @ chat # post"
      by simp
    from mp p2 have q2: "messages_push chatId user m (c # cs) =
          (c # pre) @ chat\<lparr>Chat.messages := Chat.messages chat @ [m]\<rparr> # post"
      by simp
    from q1 q2 show ?thesis by blast
  qed
qed

lemma findChat_messages_push:
  "findChat chatId user chats = Some chat \<Longrightarrow>
   findChat chatId user (messages_push chatId user m chats) =
     Some (chat\<lparr>Chat.messages := Chat.messages chat @ [m]\<rparr>)"
  by (induction chats) (auto simp: findChat_def)

text \<open>
  C5. \<^verbatim>\<open>POST /chat/:id/messages/\<close> by an authenticated user: when the user has no
  chat with this id the answer is 404 and the store is unchanged; otherwise the answer is
  200 with the created message, whose sender is \<open>User\<close>, whose \<open>userId\<close> is the
  caller's and whose text is the submitted text as it came, and the store differs only in
  that chat, which has the message appended: one message more, the new one last.
\<close>

theorem post_chat_messages_appends:
  assumes "route req = POST_chat_messages chatId" and "authenticate env req = (Inr user, calls)"
  shows "(findChat chatId user chats = None \<longrightarrow> handle env req chats = (NotFound, chats, calls)) \<and>
         (\<forall>chat. findChat chatId user chats = Some chat \<longrightarrow>
            (let m = \<lparr>Message.id = v4 env, Message.text = body_text req,
                      Message.createdAt = new_Date env, Message.userId = uid user,
                      Message.sender = User\<rparr>;
                 chat' = chat\<lparr>Chat.messages := Chat.messages chat @ [m]\<rparr>
             in (\<exists>pre post. chats = pre @ chat # post \<and>
                   handle env req chats =
                     (\<lparr>status = 200, body = Json_Message m\<rparr>, pre @ chat' # post, calls)) \<and>
                findChat chatId user (fst (snd (handle env req chats))) = Some chat' \<and>
                length (Chat.messages chat') = length (Chat.messages chat) + 1 \<and>
                last (Chat.messages chat') = m))"
proof -
  have h: "handle env req chats = (case post_chat_messages env user chatId (body_text req) chats of
             (res, chats', calls') \<Rightarrow> (res, chats', calls @ calls'))"
    using assms by (simp add: handle_Inr dispatch_def)
  have n: "handle env req chats = (NotFound, chats, calls)" if "findChat chatId user chats = None"
    using that h by (simp add: post_chat_messages_def)
  have s: "(\<exists>pre post. chats = pre @ chat # post \<and>
              handle env req chats =
                (\<lparr>status = 200, body = Json_Message (Message_now env (body_text req) (uid user) User)\<rparr>,
                 pre @ chat\<lparr>Chat.messages := Chat.messages chat @
                    [Message_now env (body_text req) (uid user) User]\<rparr> # post, calls)) \<and>
           findChat chatId user (fst (snd (handle env req chats))) =
             Some (chat\<lparr>Chat.messages := Chat.messages chat @
                    [Message_now env (body_text req) (uid user) User]\<rparr>)"
    if f: "findChat chatId user chats = Some chat" for chat
  proof -
    have e: "handle env req chats =
        (\<lparr>status = 200, body = Json_Message (Message_now env (body_text req) (uid user) User)\<rparr>,
         messages_push chatId user (Message_now env (body_text req) (uid user) User) chats, calls)"
      using f h by (simp add: post_chat_messages_def Let_def)
    show ?thesis
      using messages_push_found [OF f, of "Message_now env (body_text req) (uid user) User"]
        findChat_messages_push [OF f, of "Message_now env (body_text req) (uid user) User"] e
      by auto
  qed
  show ?thesis
    using n s by (simp add: Message_now_def Let_def)
qed

theorem post_chat_messages_appends_witness:
  "handle env0 (request ''tok-alice'' (POST_chat_messages ''c-2'') (Str ''yo'')) [chat_a, chat_b]
     = (NotFound, [chat_a, chat_b], [Call_verifyIdToken ''tok-alice'']) \<and>
   handle env0 (request ''tok-bob'' (POST_chat_messages ''c-2'') (Str ''yo'')) [chat_a, chat_b]
     = (\<lparr>status = 200,
         body = Json_Message \<lparr>Message.id = ''id-9'', Message.text = Str ''yo'',
                               Message.createdAt = 1700000000000, Message.userId = ''bob'',
                               Message.sender = User\<rparr>\<rparr>,
        [chat_a,
         chat_b\<lparr>Chat.messages :=
                  [\<lparr>Message.id = ''id-9'', Message.text = Str ''yo'',
                    Message.createdAt = 1700000000000, Message.userId = ''bob'',
                    Message.sender = User\<rparr>]\<rparr>],
        [Call_verifyIdToken ''tok-bob''])"
proof -
  have a: "authenticate env0 (request ''tok-alice'' (POST_chat_messages ''c-2'') (Str ''yo'')) =
             (Inr \<lparr>uid = ''alice''\<rparr>, [Call_verifyIdToken ''tok-alice''])"
    by (simp add: authenticate_def request_def extractToken_def split_def env0_def)
  have b: "authenticate env0 (request ''tok-bob'' (POST_chat_messages ''c-2'') (Str ''yo'')) =
             (Inr \<lparr>uid = ''bob''\<rparr>, [Call_verifyIdToken ''tok-bob''])"
    by (simp add: authenticate_def request_def extractToken_def split_def env0_def)
  have r: "route (request t (POST_chat_messages ''c-2'') (Str ''yo'')) = POST_chat_messages ''c-2''"
    for t by (simp add: request_def)
  have fa: "findChat ''c-2'' \<lparr>uid = ''alice''\<rparr> [chat_a, chat_b] = None"
    by (simp add: findChat_def chat_a_def chat_b_def)
  have fb: "findChat ''c-2'' \<lparr>uid = ''bob''\<rparr> [chat_a, chat_b] = Some chat_b"
    by (simp add: findChat_def chat_a_def chat_b_def)
  have e: "v4 env0 = ''id-9''" "new_Date env0 = 1700000000000" "Chat.messages chat_b = []"
    "body_text (request t (POST_chat_messages ''c-2'') (Str ''yo'')) = Str ''yo''" for t
    by (simp_all add: env0_def chat_b_def request_def)
  have pp: "pre @ chat_b # post = [chat_a, chat_b] \<Longrightarrow> pre = [chat_a] \<and> post = []" for pre post
    by (cases pre; cases "tl pre"; cases post) (auto simp: chat_a_def chat_b_def)
  show ?thesis
    using post_chat_messages_appends [OF r a, of "[chat_a, chat_b]"]
      post_chat_messages_appends [OF r b, of "[chat_a, chat_b]"] fa fb e
    by (auto simp: Let_def dest!: pp [OF sym])
qed

lemma keeps_refl: "keeps c c"
  by (simp add: keeps_def)

lemma messages_push_keeps: "list_all2 keeps chats (messages_push chatId user m chats)"
  by (induction chats) (simp_all add: keeps_def list.rel_refl)

lemma messages_push_length: "length (messages_push chatId user m chats) = length chats"
  by (induction chats) simp_all

lemma dispatch_store:
  "fst (snd (dispatch env user req chats)) = chats \<or>
   (\<exists>c. fst (snd (dispatch env user req chats)) = chats @ [c]) \<or>
   (\<exists>chatId m. fst (snd (dispatch env user req chats)) = messages_push chatId user m chats)"
  by (cases "route req")
    (auto simp: dispatch_def post_chat_def post_chat_messages_def get_chat_response_def
       get_chat_id_def get_chat_def Let_def split: option.splits list.splits)

lemma handle_store:
  "fst (snd (handle env req chats)) = chats \<or>
   (\<exists>c. fst (snd (handle env req chats)) = chats @ [c]) \<or>
   (\<exists>chatId user m. fst (snd (handle env req chats)) = messages_push chatId user m chats)"
proof (cases "authenticate env req")
  case (Pair a calls)
  show ?thesis
  proof (cases a)
    case (Inl r)
    with Pair show ?thesis by (simp add: handle_Inl)
  next
    case (Inr user)
    with Pair have "fst (snd (handle env req chats)) = fst (snd (dispatch env user req chats))"
      by (simp add: handle_Inr split: prod.splits)
    with dispatch_store [of env user req chats] show ?thesis by metis
  qed
qed

lemma handle_keeps:
  "length chats \<le> length (fst (snd (handle env req chats))) \<and>
   list_all2 keeps chats (take (length chats) (fst (snd (handle env req chats))))"
  using handle_store [of env req chats]
  by (auto simp: messages_push_length messages_push_keeps list.rel_refl keeps_refl)

text \<open>
  C9. Whatever the request, every chat of the store is still there afterwards, at its
  place, with the same id, owner and title, and with the messages it had as a prefix of
  the messages it has.
\<close>

theorem handle_preserves_chats:
  "length chats \<le> length (fst (snd (handle env req chats))) \<and>
   (\<forall>i<length chats.
      Chat.id (fst (snd (handle env req chats)) ! i) = Chat.id (chats ! i) \<and>
      Chat.userId (fst (snd (handle env req chats)) ! i) = Chat.userId (chats ! i) \<and>
      Chat.title (fst (snd (handle env req chats)) ! i) = Chat.title (chats ! i) \<and>
      prefix (Chat.messages (chats ! i)) (Chat.messages (fst (snd (handle env req chats)) ! i)))"
proof -
  let ?chats' = "fst (snd (handle env req chats))"
  have l: "length chats \<le> length ?chats'"
    and r: "list_all2 keeps chats (take (length chats) ?chats')"
    using handle_keeps [of chats env req] by simp_all
  have "keeps (chats ! i) (?chats' ! i)" if "i < length chats" for i
    using list_all2_nthD [OF r that] that by simp
  with l show ?thesis
    by (simp add: keeps_def)
qed

theorem handle_preserves_chats_witness:
  "Chat.id (fst (snd (handle env0 (request ''tok-alice'' (POST_chat_messages ''c-1'') (Str ''yo''))
             [chat_a, chat_b])) ! 0) = Chat.id chat_a \<and>
   prefix (Chat.messages chat_a)
     (Chat.messages (fst (snd (handle env0
        (request ''tok-alice'' (POST_chat_messages ''c-1'') (Str ''yo'')) [chat_a, chat_b])) ! 0)) \<and>
   length (Chat.messages (fst (snd (handle env0
        (request ''tok-alice'' (POST_chat_messages ''c-1'') (Str ''yo'')) [chat_a, chat_b])) ! 0)) = 2"
proof -
  have e: "fst (snd (handle env0 (request ''tok-alice'' (POST_chat_messages ''c-1'') (Str ''yo''))
             [chat_a, chat_b])) ! 0 =
           chat_a\<lparr>Chat.messages := Chat.messages chat_a @
             [Message_now env0 (Str ''yo'') ''alice'' User]\<rparr>"
    by (simp add: handle_def authenticate_def request_def extractToken_def split_def env0_def
        dispatch_def post_chat_messages_def findChat_def chat_a_def chat_b_def Let_def)
  have l: "length (Chat.messages chat_a) = 1"
    by (simp add: chat_a_def)
  show ?thesis
    using handle_preserves_chats [of "[chat_a, chat_b]" env0
        "request ''tok-alice'' (POST_chat_messages ''c-1'') (Str ''yo'')"] e l
    by simp
qed

text \<open>The same over a whole run.\<close>

lemma run_keeps:
  "length chats \<le> length (run events chats) \<and>
   list_all2 keeps chats (take (length chats) (run events chats))"
proof (induction events arbitrary: chats)
  case Nil
  then show ?case by (simp add: list.rel_refl keeps_refl)
next
  case (Cons e events)
  obtain env req where e: "e = (env, req)" by (cases e)
  let ?mid = "fst (snd (handle env req chats))"
  have 1: "length chats \<le> length ?mid" "list_all2 keeps chats (take (length chats) ?mid)"
    using handle_keeps [of chats env req] by simp_all
  have 2: "length ?mid \<le> length (run events ?mid)"
    "list_all2 keeps ?mid (take (length ?mid) (run events ?mid))"
    using Cons.IH [of ?mid] by simp_all
  have "list_all2 keeps (take (length chats) ?mid) (take (length chats) (run events ?mid))"
    using list_all2_takeI [OF 2(2), of "length chats"] 1(1) by (simp add: min_absorb1)
  with 1(2) have "list_all2 keeps chats (take (length chats) (run events ?mid))"
    by (rule list_all2_trans [rotated 1]) (auto simp: keeps_def)
  with 1(1) 2(1) e show ?case by simp
qed

subsection \<open>The generated reply\<close>

lemma authenticate_Inr:
  "authenticate env req = (Inr user, calls) \<Longrightarrow>
   \<exists>token. extractToken (authorization req) = Some token \<and>
     verifyIdToken env token = Some (uid user) \<and> calls = [Call_verifyIdToken token]"
  by (auto simp: authenticate_def split: option.splits)

lemma authenticate_Inl:
  "authenticate env req = (Inl r, calls) \<Longrightarrow> r = Unauthorized"
  by (auto simp: authenticate_def split: option.splits)

lemma mapMessages_roles:
  "mapMessages chat =
     map (\<lambda>m. \<lparr>ChatCompletionMessageParam.content = Message.text m,
                role = (case Message.sender m of User \<Rightarrow> ''user'' | Bot \<Rightarrow> ''assistant'')\<rparr>)
       (Chat.messages chat)"
  by (auto simp: mapMessages_def split: Sender.splits)

lemma get_chat_response_failure:
  assumes "findChat chatId user chats = Some chat"
    and "completions_create env ''gpt-3.5-turbo'' (mapMessages chat) = None \<or>
         (\<exists>response. completions_create env ''gpt-3.5-turbo'' (mapMessages chat) = Some response \<and>
            choices response = [])"
  shows "get_chat_response env user chatId chats =
           (errorHandler, chats, [Call_completions_create ''gpt-3.5-turbo'' (mapMessages chat)])"
  using assms by (auto simp: get_chat_response_def Let_def)

lemma handle_completion_failure:
  assumes "route req = GET_chat_response chatId"
    and "authenticate env req = (Inr user, calls)"
    and "findChat chatId user chats = Some chat"
    and "completions_create env ''gpt-3.5-turbo'' (mapMessages chat) = None \<or>
         (\<exists>response. completions_create env ''gpt-3.5-turbo'' (mapMessages chat) = Some response \<and>
            choices response = [])"
  shows "handle env req chats =
           (errorHandler, chats,
            calls @ [Call_completions_create ''gpt-3.5-turbo'' (mapMessages chat)])"
  using assms(1,2) get_chat_response_failure [OF assms(3,4)]
  by (simp add: handle_Inr dispatch_def)

lemma get_chat_response_200:
  assumes "get_chat_response env user chatId chats = (res, chats', calls)" and "status res = 200"
  shows "\<exists>chat response choice rest.
           findChat chatId user chats = Some chat \<and>
           completions_create env ''gpt-3.5-turbo'' (mapMessages chat) = Some response \<and>
           choices response = choice # rest \<and>
           calls = [Call_completions_create ''gpt-3.5-turbo'' (mapMessages chat)] \<and>
           res = \<lparr>status = 200, body = Json_Message
                   (Message_now env (ChatCompletionMessage.content (message choice)) (uid user) Bot)\<rparr> \<and>
           chats' = messages_push chatId user
                   (Message_now env (ChatCompletionMessage.content (message choice)) (uid user) Bot) chats"
  using assms
  by (auto simp: get_chat_response_def Let_def NotFound_def errorHandler_def
      split: option.splits list.splits)

text \<open>
  C4. \<^verbatim>\<open>GET /chat/:id/response/\<close> by an authenticated user who owns the chat, when
  OpenAI's reply to the chat's messages has a first choice: OpenAI is called once, with
  the model \<^verbatim>\<open>gpt-3.5-turbo\<close> and all the chat's messages in their order, each with
  its text as content and the role \<^verbatim>\<open>user\<close> for sender \<open>User\<close>,
  \<^verbatim>\<open>assistant\<close> for sender \<open>Bot\<close>; the answer is 200 with the message made of the
  first choice's content, with sender \<open>Bot\<close> and the caller's \<open>userId\<close>; and the store
  differs only in that chat, which has the message appended: one message more, the new
  one last.
\<close>

theorem get_chat_response_appends:
  assumes "route req = GET_chat_response chatId"
    and "authenticate env req = (Inr user, calls)"
    and "findChat chatId user chats = Some chat"
    and "completions_create env ''gpt-3.5-turbo''
           (map (\<lambda>m. \<lparr>ChatCompletionMessageParam.content = Message.text m,
                       role = (case Message.sender m of
                                 User \<Rightarrow> ''user'' | Bot \<Rightarrow> ''assistant'')\<rparr>)
              (Chat.messages chat)) = Some response"
    and "choices response = choice # rest"
  shows "(let m = \<lparr>Message.id = v4 env,
                   Message.text = ChatCompletionMessage.content (message choice),
                   Message.createdAt = new_Date env, Message.userId = uid user,
                   Message.sender = Bot\<rparr>;
              chat' = chat\<lparr>Chat.messages := Chat.messages chat @ [m]\<rparr>
          in (\<exists>pre post. chats = pre @ chat # post \<and>
                handle env req chats =
                  (\<lparr>status = 200, body = Json_Message m\<rparr>, pre @ chat' # post,
                   calls @
                   [Call_completions_create ''gpt-3.5-turbo''
                      (map (\<lambda>m. \<lparr>ChatCompletionMessageParam.content = Message.text m,
                                  role = (case Message.sender m of
                                            User \<Rightarrow> ''user'' | Bot \<Rightarrow> ''assistant'')\<rparr>)
                         (Chat.messages chat))])) \<and>
             findChat chatId user (fst (snd (handle env req chats))) = Some chat' \<and>
             length (Chat.messages chat') = length (Chat.messages chat) + 1 \<and>
             last (Chat.messages chat') = m)"
proof -
  let ?m = "Message_now env (ChatCompletionMessage.content (message choice)) (uid user) Bot"
  have cc: "completions_create env ''gpt-3.5-turbo'' (mapMessages chat) = Some response"
    using assms(4) by (simp add: mapMessages_roles)
  have g: "get_chat_response env user chatId chats =
             (\<lparr>status = 200, body = Json_Message ?m\<rparr>,
              messages_push chatId user ?m chats,
              [Call_completions_create ''gpt-3.5-turbo'' (mapMessages chat)])"
    using assms(3,5) cc by (simp add: get_chat_response_def Let_def)
  have h: "handle env req chats =
             (\<lparr>status = 200, body = Json_Message ?m\<rparr>,
              messages_push chatId user ?m chats,
              calls @ [Call_completions_create ''gpt-3.5-turbo'' (mapMessages chat)])"
    using assms(1,2) g by (simp add: handle_Inr dispatch_def)
  obtain pre post where pp: "chats = pre @ chat # post"
    and mp: "messages_push chatId user ?m chats =
       pre @ chat\<lparr>Chat.messages := Chat.messages chat @ [?m]\<rparr> # post"
    using messages_push_found [OF assms(3), of ?m] by blast
  have e: "\<exists>pre post. chats = pre @ chat # post \<and>
             handle env req chats =
               (\<lparr>status = 200, body = Json_Message ?m\<rparr>,
                pre @ chat\<lparr>Chat.messages := Chat.messages chat @ [?m]\<rparr> # post,
                calls @ [Call_completions_create ''gpt-3.5-turbo'' (mapMessages chat)])"
    using pp mp h by auto
  have f: "findChat chatId user (fst (snd (handle env req chats))) =
             Some (chat\<lparr>Chat.messages := Chat.messages chat @ [?m]\<rparr>)"
    using findChat_messages_push [OF assms(3), of ?m] h by simp
  show ?thesis
    using e f by (simp add: Let_def Message_now_def mapMessages_roles)
qed

theorem get_chat_response_appends_witness:
  "handle env0 (request ''tok-alice'' (GET_chat_response ''c-1'') Undefined) [chat_a, chat_b] =
     (\<lparr>status = 200, body = Json_Message (bot_reply (Str ''hello''))\<rparr>,
      [chat_a\<lparr>Chat.messages := Chat.messages chat_a @ [bot_reply (Str ''hello'')]\<rparr>, chat_b],
      [Call_verifyIdToken ''tok-alice'',
       Call_completions_create ''gpt-3.5-turbo''
         [\<lparr>ChatCompletionMessageParam.content = Str ''hi'', role = ''user''\<rparr>]]) \<and>
   findChat ''c-1'' \<lparr>uid = ''alice''\<rparr>
     (fst (snd (handle env0 (request ''tok-alice'' (GET_chat_response ''c-1'') Undefined)
        [chat_a, chat_b]))) =
     Some (chat_a\<lparr>Chat.messages := Chat.messages chat_a @ [bot_reply (Str ''hello'')]\<rparr>)"
proof -
  have r: "route (request ''tok-alice'' (GET_chat_response ''c-1'') Undefined) =
             GET_chat_response ''c-1''"
    by (simp add: request_def)
  have a: "authenticate env0 (request ''tok-alice'' (GET_chat_response ''c-1'') Undefined) =
             (Inr \<lparr>uid = ''alice''\<rparr>, [Call_verifyIdToken ''tok-alice''])"
    by (simp add: authenticate_def request_def extractToken_def split_def env0_def)
  have f: "findChat ''c-1'' \<lparr>uid = ''alice''\<rparr> [chat_a, chat_b] = Some chat_a"
    by (simp add: findChat_def chat_a_def chat_b_def)
  have c: "completions_create env0 ''gpt-3.5-turbo''
           (map (\<lambda>m. \<lparr>ChatCompletionMessageParam.content = Message.text m,
                       role = (case Message.sender m of
                                 User \<Rightarrow> ''user'' | Bot \<Rightarrow> ''assistant'')\<rparr>)
              (Chat.messages chat_a)) =
           Some \<lparr>choices = [\<lparr>message = \<lparr>ChatCompletionMessage.content = Str ''hello''\<rparr>\<rparr>]\<rparr>"
    by (simp add: env0_def)
  have ch: "choices \<lparr>choices = [\<lparr>message = \<lparr>ChatCompletionMessage.content = Str ''hello''\<rparr>\<rparr>]\<rparr> =
              \<lparr>message = \<lparr>ChatCompletionMessage.content = Str ''hello''\<rparr>\<rparr> # []"
    by simp
  have m: "\<lparr>Message.id = v4 env0, Message.text = Str ''hello'',
            Message.createdAt = new_Date env0, Message.userId = ''alice'',
            Message.sender = Bot\<rparr> = bot_reply (Str ''hello'')"
    by (simp add: env0_def bot_reply_def)
  have ms: "map (\<lambda>m. \<lparr>ChatCompletionMessageParam.content = Message.text m,
                       role = (case Message.sender m of
                                 User \<Rightarrow> ''user'' | Bot \<Rightarrow> ''assistant'')\<rparr>)
              (Chat.messages chat_a) =
            [\<lparr>ChatCompletionMessageParam.content = Str ''hi'', role = ''user''\<rparr>]"
    by (simp add: chat_a_def)
  have pp: "[chat_a, chat_b] = pre @ chat_a # post \<Longrightarrow> pre = [] \<and> post = [chat_b]" for pre post
    by (cases pre; cases "tl pre"; cases post) (auto simp: chat_a_def chat_b_def)
  show ?thesis
    using get_chat_response_appends [OF r a f c ch, unfolded Let_def]
    by (auto simp: m ms dest!: pp)
qed

text \<open>
  Conversely, the route answers 200 in no other way: the caller was authenticated and owns
  the chat, and the reply had a first choice.
\<close>

lemma get_chat_response_200_only_if:
  assumes "route req = GET_chat_response chatId"
    and "handle env req chats = (res, chats', calls)"
    and "status res = 200"
  shows "\<exists>token user chat response choice rest pre post.
           authenticate env req = (Inr user, [Call_verifyIdToken token]) \<and>
           findChat chatId user chats = Some chat \<and>
           calls =
             [Call_verifyIdToken token,
              Call_completions_create ''gpt-3.5-turbo''
                (map (\<lambda>m. \<lparr>ChatCompletionMessageParam.content = Message.text m,
                            role = (case Message.sender m of
                                      User \<Rightarrow> ''user'' | Bot \<Rightarrow> ''assistant'')\<rparr>)
                   (Chat.messages chat))] \<and>
           completions_create env ''gpt-3.5-turbo''
             (map (\<lambda>m. \<lparr>ChatCompletionMessageParam.content = Message.text m,
                         role = (case Message.sender m of
                                   User \<Rightarrow> ''user'' | Bot \<Rightarrow> ''assistant'')\<rparr>)
                (Chat.messages chat)) = Some response \<and>
           choices response = choice # rest \<and>
           (let m = \<lparr>Message.id = v4 env,
                     Message.text = ChatCompletionMessage.content (message choice),
                     Message.createdAt = new_Date env, Message.userId = uid user,
                     Message.sender = Bot\<rparr>
            in res = \<lparr>status = 200, body = Json_Message m\<rparr> \<and>
               chats = pre @ chat # post \<and>
               chats' = pre @ chat\<lparr>Chat.messages := Chat.messages chat @ [m]\<rparr> # post)"
proof -
  obtain a calls0 where au: "authenticate env req = (a, calls0)"
    by (cases "authenticate env req")
  have "\<exists>user. a = Inr user"
  proof (cases a)
    case (Inl r)
    with au assms(2) have "res = Unauthorized"
      using authenticate_Inl [of env req r calls0] by (simp add: handle_Inl)
    with assms(3) show ?thesis by (simp add: Unauthorized_def)
  next
    case (Inr user)
    then show ?thesis by blast
  qed
  then obtain user where a: "a = Inr user" by blast
  obtain token where c0: "calls0 = [Call_verifyIdToken token]"
    using authenticate_Inr au a by blast
  obtain res1 chats1 calls1 where
    g: "get_chat_response env user chatId chats = (res1, chats1, calls1)"
    by (cases "get_chat_response env user chatId chats")
  have h: "res = res1" "chats' = chats1" "calls = calls0 @ calls1"
    using assms(1,2) au a g by (simp_all add: handle_Inr dispatch_def)
  obtain chat response choice rest where
    f: "findChat chatId user chats = Some chat"
    and cc: "completions_create env ''gpt-3.5-turbo'' (mapMessages chat) = Some response"
    and ch: "choices response = choice # rest"
    and cl: "calls1 = [Call_completions_create ''gpt-3.5-turbo'' (mapMessages chat)]"
    and rs: "res1 = \<lparr>status = 200, body = Json_Message
               (Message_now env (ChatCompletionMessage.content (message choice)) (uid user) Bot)\<rparr>"
    and st: "chats1 = messages_push chatId user
               (Message_now env (ChatCompletionMessage.content (message choice)) (uid user) Bot) chats"
    using get_chat_response_200 [OF g] assms(3) h(1) by blast
  obtain pre post where pp: "chats = pre @ chat # post"
    "messages_push chatId user
       (Message_now env (ChatCompletionMessage.content (message choice)) (uid user) Bot) chats =
     pre @ chat\<lparr>Chat.messages := Chat.messages chat @
       [Message_now env (ChatCompletionMessage.content (message choice)) (uid user) Bot]\<rparr> # post"
    using messages_push_found [OF f] by blast
  show ?thesis
    apply (rule exI [of _ token], rule exI [of _ user], rule exI [of _ chat])
    apply (rule exI [of _ response], rule exI [of _ choice], rule exI [of _ rest])
    apply (rule exI [of _ pre], rule exI [of _ post])
    using au a c0 f cc ch cl rs st h pp
    by (simp add: Let_def mapMessages_roles Message_now_def)
qed

text \<open>
  C2. The claim fails on the code where the first choice carries no text: OpenAI's reply
  type allows \<^verbatim>\<open>content: null\<close>, the \<^verbatim>\<open>!\<close> of the handler does not check it,
  and the request answers 200 after appending a \<open>Bot\<close> message whose text is null. (A
  rejected call and a reply without choices do end in the 500 of \<^verbatim>\<open>errorHandler\<close>
  with the store unchanged and OpenAI called once: \<open>handle_completion_failure\<close>.)
\<close>

theorem get_chat_response_null_content:
  "handle env_null (request ''tok-alice'' (GET_chat_response ''c-1'') Undefined) [chat_a, chat_b] =
     (\<lparr>status = 200, body = Json_Message (bot_reply Null)\<rparr>,
      [chat_a\<lparr>Chat.messages := Chat.messages chat_a @ [bot_reply Null]\<rparr>, chat_b],
      [Call_verifyIdToken ''tok-alice'',
       Call_completions_create ''gpt-3.5-turbo''
         [\<lparr>ChatCompletionMessageParam.content = Str ''hi'', role = ''user''\<rparr>]])"
  by (simp add: handle_def authenticate_def request_def extractToken_def split_def env0_def
      env_null_def dispatch_def get_chat_response_def findChat_def chat_a_def chat_b_def Let_def
      mapMessages_def Message_now_def bot_reply_def)

subsection \<open>Listing\<close>

lemma messages_push_owned:
  "map Chat.id (filter (\<lambda>chat. Chat.userId chat = u) (messages_push chatId user m chats)) =
   map Chat.id (filter (\<lambda>chat. Chat.userId chat = u) chats)"
  by (induction chats) simp_all

lemma dispatch_owned:
  "map Chat.id (filter (\<lambda>chat. Chat.userId chat = u) (fst (snd (dispatch env user req chats)))) =
   map Chat.id (filter (\<lambda>chat. Chat.userId chat = u) chats) @
     (if route req = POST_chat \<and> uid user = u then [v4 env] else [])"
  by (cases "route req")
    (auto simp: dispatch_def post_chat_def post_chat_messages_def get_chat_response_def
       get_chat_id_def get_chat_def Let_def Chat_empty_def messages_push_owned
       split: option.splits list.splits)

lemma handle_owned:
  "map Chat.id (filter (\<lambda>chat. Chat.userId chat = u) (fst (snd (handle env req chats)))) =
   map Chat.id (filter (\<lambda>chat. Chat.userId chat = u) chats) @
     (if creates u (env, req) then [v4 env] else [])"
proof (cases "authenticate env req")
  case (Pair a calls)
  show ?thesis
  proof (cases a)
    case (Inl r)
    with Pair show ?thesis by (simp add: handle_Inl creates_def)
  next
    case (Inr user)
    have u: "(Inr user = (Inr \<lparr>uid = u\<rparr> :: Response + ReqUser)) \<longleftrightarrow> uid user = u"
      by (cases user) simp
    from Inr Pair have "fst (snd (handle env req chats)) = fst (snd (dispatch env user req chats))"
      by (simp add: handle_Inr split: prod.splits)
    with dispatch_owned [of u env user req chats] Pair Inr u show ?thesis
      by (simp add: creates_def)
  qed
qed

lemma run_owned:
  "map Chat.id (filter (\<lambda>chat. Chat.userId chat = u) (run events chats)) =
   map Chat.id (filter (\<lambda>chat. Chat.userId chat = u) chats) @
     map (\<lambda>e. v4 (fst e)) (filter (creates u) events)"
proof (induction events arbitrary: chats)
  case Nil
  then show ?case by simp
next
  case (Cons e events)
  obtain env req where e: "e = (env, req)" by (cases e)
  show ?case
    using Cons.IH [of "fst (snd (handle env req chats))"] handle_owned [of u env req chats] e
    by simp
qed



subsection \<open>From the server to the client\<close>

lemma Sender_fromJson_value:
  "Sender_fromJson (Sender_value s) = Inr (case s of User \<Rightarrow> Sender_user | Bot \<Rightarrow> Sender_bot)"
  by (cases s) (simp_all add: Sender_fromJson_def)

lemma ChatMessage_roundtrip:
  assumes "Message.text m = Str s"
    and "DateTime_parse (toISOString (Message.createdAt m)) = Some (Message.createdAt m)"
  shows "\<exists>kvs. stringify_IMessage toISOString m = JObject kvs \<and>
           ChatMessage_fromJson DateTime_parse kvs =
             Inr \<lparr>ChatMessage.id = Message.id m, ChatMessage.text = s,
                  ChatMessage.createdAt = Message.createdAt m,
                  ChatMessage.sender =
                    (case Message.sender m of User \<Rightarrow> Sender_user | Bot \<Rightarrow> Sender_bot)\<rparr>"
  using assms
  by (simp add: stringify_IMessage_def ChatMessage_fromJson_def lookup_def Sender_fromJson_value)

lemma messages_roundtrip:
  assumes "\<forall>m \<in> set ms. (\<exists>s. Message.text m = Str s) \<and>
             DateTime_parse (toISOString (Message.createdAt m)) = Some (Message.createdAt m)"
  shows "messages_fromJson DateTime_parse (map (stringify_IMessage toISOString) ms) =
           Inr (map (\<lambda>m. \<lparr>ChatMessage.id = Message.id m,
                           ChatMessage.text = (case Message.text m of Str s \<Rightarrow> s | _ \<Rightarrow> []),
                           ChatMessage.createdAt = Message.createdAt m,
                           ChatMessage.sender =
                             (case Message.sender m of
                                User \<Rightarrow> Sender_user | Bot \<Rightarrow> Sender_bot)\<rparr>) ms)"
  using assms
proof (induction ms)
  case Nil
  then show ?case by simp
next
  case (Cons m ms)
  then obtain s where s: "Message.text m = Str s"
    and d: "DateTime_parse (toISOString (Message.createdAt m)) = Some (Message.createdAt m)"
    by auto
  obtain kvs where k: "stringify_IMessage toISOString m = JObject kvs"
    "ChatMessage_fromJson DateTime_parse kvs =
       Inr \<lparr>ChatMessage.id = Message.id m, ChatMessage.text = s,
            ChatMessage.createdAt = Message.createdAt m,
            ChatMessage.sender =
              (case Message.sender m of User \<Rightarrow> Sender_user | Bot \<Rightarrow> Sender_bot)\<rparr>"
    using ChatMessage_roundtrip [where m = m and s = s and DateTime_parse = DateTime_parse
        and toISOString = toISOString] s d by blast
  from Cons have "messages_fromJson DateTime_parse (map (stringify_IMessage toISOString) ms) =
           Inr (map (\<lambda>m. \<lparr>ChatMessage.id = Message.id m,
                           ChatMessage.text = (case Message.text m of Str s \<Rightarrow> s | _ \<Rightarrow> []),
                           ChatMessage.createdAt = Message.createdAt m,
                           ChatMessage.sender =
                             (case Message.sender m of
                                User \<Rightarrow> Sender_user | Bot \<Rightarrow> Sender_bot)\<rparr>) ms)"
    by simp
  with k s show ?case by simp
qed

text \<open>
  C3 (as amended). For a chat whose message texts are strings and whose timestamps
  \<^verbatim>\<open>DateTime.parse\<close> reads back from their \<^verbatim>\<open>toISOString\<close>, what the client
  decodes from the server's JSON has the chat's id and title and its messages in order,
  each with its id, text, createdAt and sender. The client's classes have no
  \<open>userId\<close>.
\<close>

theorem Chat_roundtrip:
  assumes "\<forall>m \<in> set (Chat.messages c). (\<exists>s. Message.text m = Str s) \<and>
             DateTime_parse (toISOString (Message.createdAt m)) = Some (Message.createdAt m)"
  shows "Chat_fromResponse DateTime_parse (stringify_IChat toISOString (Chat_toJson c)) =
           Inr \<lparr>Dart_Chat.id = Chat.id c, Dart_Chat.title = Chat.title c,
                Dart_Chat.messages =
                  map (\<lambda>m. \<lparr>ChatMessage.id = Message.id m,
                             ChatMessage.text = (case Message.text m of Str s \<Rightarrow> s | _ \<Rightarrow> []),
                             ChatMessage.createdAt = Message.createdAt m,
                             ChatMessage.sender =
                               (case Message.sender m of
                                  User \<Rightarrow> Sender_user | Bot \<Rightarrow> Sender_bot)\<rparr>)
                    (Chat.messages c)\<rparr>"
  using messages_roundtrip [where ms = "Chat.messages c" and DateTime_parse = DateTime_parse
      and toISOString = toISOString] assms
  by (simp add: stringify_IChat_def Chat_fromJson_def lookup_def)

theorem Chat_roundtrip_witness:
  "Chat_fromResponse DateTime_parse0 (stringify_IChat toISOString0 (Chat_toJson chat_a)) =
     Inr \<lparr>Dart_Chat.id = ''c-1'', Dart_Chat.title = ''New Chat'',
          Dart_Chat.messages =
            [\<lparr>ChatMessage.id = ''m-1'', ChatMessage.text = ''hi'',
              ChatMessage.createdAt = 1700000000000, ChatMessage.sender = Sender_user\<rparr>]\<rparr>"
proof -
  have h: "\<forall>m \<in> set (Chat.messages chat_a). (\<exists>s. Message.text m = Str s) \<and>
             DateTime_parse0 (toISOString0 (Message.createdAt m)) = Some (Message.createdAt m)"
    by (simp add: chat_a_def toISOString0_def DateTime_parse0_def)
  show ?thesis
    using Chat_roundtrip [where c = chat_a and DateTime_parse = DateTime_parse0
        and toISOString = toISOString0] h
    by (simp add: chat_a_def)
qed

text \<open>
  C3 as stated fails for \<open>userId\<close>: two chats that differ in the owner, of the chat and
  of its message, are the same chat to the client.
\<close>

theorem Chat_roundtrip_drops_userId:
  "Chat.userId chat_a \<noteq> Chat.userId chat_a' \<and>
   map Message.userId (Chat.messages chat_a) \<noteq> map Message.userId (Chat.messages chat_a') \<and>
   Chat_fromResponse DateTime_parse0 (stringify_IChat toISOString0 (Chat_toJson chat_a)) =
     Chat_fromResponse DateTime_parse0 (stringify_IChat toISOString0 (Chat_toJson chat_a'))"
  by (simp add: chat_a_def chat_a'_def stringify_IChat_def stringify_IMessage_def
      Chat_fromJson_def ChatMessage_fromJson_def lookup_def Sender_fromJson_def
      toISOString0_def DateTime_parse0_def)

end
